theory Spec2Isabelle
  imports Main "HOL-Library.Char_ord" "HOL-Library.List_Lexorder" "HOL-Library.Multiset"
begin

section \<open>The relational store (supabase/migrations/20251031204105_...sql)\<close>

text \<open>
  Identifiers are UUIDs, which the client code handles as strings. Text columns are
  strings; a nullable column is an \<open>option\<close>. A \<open>TIMESTAMPTZ\<close> is an integer
  (microseconds). The elements of a string stand for the code units that JavaScript's
  \<open>length\<close> counts.
\<close>

type_synonym uuid = string

text \<open>
  Table \<open>public.posts\<close>. The column \<open>updated_at\<close> is omitted: nothing modelled
  here reads it.
\<close>

record post_row =
  post_id :: uuid
  post_user_id :: uuid
  media_url :: string
  media_type :: string
  caption :: "string option"
  location :: "string option"
  created_at :: int

text \<open>
  Tables \<open>public.likes\<close>, \<open>public.saves\<close>, \<open>public.follows\<close> and
  \<open>public.notifications\<close>. Their columns \<open>id\<close> and \<open>created_at\<close> are filled by
  column defaults (\<open>gen_random_uuid()\<close>, \<open>NOW()\<close>) and are never written or compared
  by the client code modelled below, so a row carries the remaining columns.
\<close>

record like_row =
  like_user_id :: uuid
  like_post_id :: uuid

record save_row =
  save_user_id :: uuid
  save_post_id :: uuid

record follow_row =
  follower_id :: uuid
  following_id :: uuid

record notification_row =
  notif_user_id :: uuid
  actor_id :: uuid
  notif_type :: string
  notif_post_id :: "uuid option"
  comment_id :: "uuid option"
  is_read :: bool

text \<open>A browser \<open>File\<close>: its name, its MIME type and its bytes.\<close>

record js_file =
  file_name :: string
  file_type :: string
  file_bytes :: "nat list"

text \<open>
  The store: each table is the list of its rows, in the order in which a scan yields
  them; \<open>objects\<close> is the storage bucket \<open>posts\<close>, rows of object name and content.
  The tables \<open>profiles\<close>, \<open>user_roles\<close>, \<open>comments\<close>, \<open>hashtags\<close>,
  \<open>post_hashtags\<close> and \<open>auth.users\<close> are not modelled, so foreign keys into
  \<open>auth.users\<close> are not checked.
\<close>

record store =
  posts :: "post_row list"
  likes :: "like_row list"
  saves :: "save_row list"
  follows :: "follow_row list"
  notifications :: "notification_row list"
  objects :: "(string \<times> js_file) list"

definition empty_store :: store where
  "empty_store = \<lparr>posts = [], likes = [], saves = [], follows = [], notifications = [], objects = []\<rparr>"

text \<open>
  The errors a statement can come back with. \<open>Unavailable\<close> stands for a failure
  outside the store's constraints (network, time-out).
\<close>

datatype db_error =
    RlsViolation
  | NotNullViolation
  | CheckViolation
  | UniqueViolation
  | ForeignKeyViolation
  | Unavailable

text \<open>
  An insert is checked in the store's order: the row-level-security policy's
  \<open>WITH CHECK\<close>, then \<open>CHECK\<close> constraints, then \<open>UNIQUE\<close> indexes, then foreign
  keys. The first argument of every statement is \<open>auth.uid()\<close>, the session's user.
\<close>

definition post_exists :: "store \<Rightarrow> uuid \<Rightarrow> bool" where
  "post_exists s p = (p \<in> set (map post_id (posts s)))"

text \<open>
  \<open>INSERT INTO likes (post_id, user_id)\<close>: policy "Authenticated users can create
  likes" (\<open>auth.uid() = user_id\<close>), \<open>UNIQUE(user_id, post_id)\<close>, and the reference to
  \<open>posts(id)\<close>.
\<close>

definition insert_like :: "uuid option \<Rightarrow> like_row \<Rightarrow> store \<Rightarrow> db_error + store" where
  "insert_like uid r s =
     (if uid = Some (like_user_id r) then
        if r \<in> set (likes s) then Inl UniqueViolation
        else if post_exists s (like_post_id r) then Inr (s\<lparr>likes := likes s @ [r]\<rparr>)
        else Inl ForeignKeyViolation
      else Inl RlsViolation)"

text \<open>
  \<open>DELETE FROM likes WHERE post_id = p AND user_id = u\<close>: policy "Users can delete
  their own likes" restricts the statement to the session's own rows. Deleting no row
  is not an error.
\<close>

definition delete_like :: "uuid option \<Rightarrow> uuid \<Rightarrow> uuid \<Rightarrow> store \<Rightarrow> db_error + store" where
  "delete_like uid p u s =
     Inr (s\<lparr>likes := filter (\<lambda>r. \<not> (like_post_id r = p \<and> like_user_id r = u \<and> uid = Some (like_user_id r))) (likes s)\<rparr>)"

text \<open>The same for \<open>saves\<close>, whose constraints and policies have the same shape.\<close>

definition insert_save :: "uuid option \<Rightarrow> save_row \<Rightarrow> store \<Rightarrow> db_error + store" where
  "insert_save uid r s =
     (if uid = Some (save_user_id r) then
        if r \<in> set (saves s) then Inl UniqueViolation
        else if post_exists s (save_post_id r) then Inr (s\<lparr>saves := saves s @ [r]\<rparr>)
        else Inl ForeignKeyViolation
      else Inl RlsViolation)"

definition delete_save :: "uuid option \<Rightarrow> uuid \<Rightarrow> uuid \<Rightarrow> store \<Rightarrow> db_error + store" where
  "delete_save uid p u s =
     Inr (s\<lparr>saves := filter (\<lambda>r. \<not> (save_post_id r = p \<and> save_user_id r = u \<and> uid = Some (save_user_id r))) (saves s)\<rparr>)"

text \<open>
  \<open>INSERT INTO notifications\<close>: policy "Authenticated users can create notifications"
  (\<open>auth.uid() = actor_id\<close>), \<open>CHECK (type IN ('like', 'comment', 'follow', 'mention'))\<close>,
  the optional reference to \<open>posts(id)\<close>. The table has no \<open>UNIQUE\<close> constraint
  besides its key. (\<open>comment_id\<close> refers to the table \<open>comments\<close>, not modelled;
  the client never sets it.)
\<close>

definition insert_notification :: "uuid option \<Rightarrow> notification_row \<Rightarrow> store \<Rightarrow> db_error + store" where
  "insert_notification uid r s =
     (if uid = Some (actor_id r) then
        if notif_type r \<in> set [''like'', ''comment'', ''follow'', ''mention''] then
          (case notif_post_id r of
             None \<Rightarrow> Inr (s\<lparr>notifications := notifications s @ [r]\<rparr>)
           | Some p \<Rightarrow>
               if post_exists s p then Inr (s\<lparr>notifications := notifications s @ [r]\<rparr>)
               else Inl ForeignKeyViolation)
        else Inl CheckViolation
      else Inl RlsViolation)"

text \<open>
  \<open>INSERT INTO follows (follower_id, following_id)\<close>: policy "Authenticated users can
  create follows" (\<open>auth.uid() = follower_id\<close>), \<open>CHECK (follower_id != following_id)\<close>,
  \<open>UNIQUE(follower_id, following_id)\<close>.
\<close>

definition insert_follow :: "uuid option \<Rightarrow> follow_row \<Rightarrow> store \<Rightarrow> db_error + store" where
  "insert_follow uid r s =
     (if uid = Some (follower_id r) then
        if follower_id r = following_id r then Inl CheckViolation
        else if r \<in> set (follows s) then Inl UniqueViolation
        else Inr (s\<lparr>follows := follows s @ [r]\<rparr>)
      else Inl RlsViolation)"

text \<open>\<open>DELETE FROM follows\<close> of one edge: policy "Users can delete their own follows".\<close>

definition delete_follow :: "uuid option \<Rightarrow> follow_row \<Rightarrow> store \<Rightarrow> db_error + store" where
  "delete_follow uid r s =
     Inr (s\<lparr>follows := filter (\<lambda>x. \<not> (x = r \<and> uid = Some (follower_id x))) (follows s)\<rparr>)"

section \<open>Awaited store calls\<close>

text \<open>
  What the client sees of \<open>await supabase.from(...)...\<close>: the promise resolves to an
  object without \<open>error\<close>, resolves to an object with \<open>error\<close>, or rejects (the
  \<open>await\<close> throws). The client library is outside the repository; the three cases
  are kept apart, and which one happens is an input of every operation: a \<open>fault\<close>
  says whether the request reaches the store (\<open>NoFault\<close>: the store decides), is
  answered with an error value (\<open>ReturnsError\<close>) or throws (\<open>Throws\<close>). In the last
  two cases the store is left as it is.
\<close>

datatype fault = NoFault | ReturnsError | Throws

datatype response = Ok | Err db_error | Thrown

definition request :: "fault \<Rightarrow> (store \<Rightarrow> db_error + store) \<Rightarrow> store \<Rightarrow> response \<times> store" where
  "request f stmt s =
     (case f of
        Throws \<Rightarrow> (Thrown, s)
      | ReturnsError \<Rightarrow> (Err Unavailable, s)
      | NoFault \<Rightarrow> (case stmt s of Inl e \<Rightarrow> (Err e, s) | Inr s' \<Rightarrow> (Ok, s')))"

section \<open>PostCard (src/components/PostCard.tsx)\<close>

text \<open>
  The component's state: \<open>isLiked\<close>, \<open>isSaved\<close>, \<open>likesCount\<close> (a JavaScript number
  that starts at \<open>post.likes.length\<close> and is only ever changed by one), and the toasts
  shown so far.
\<close>

datatype toast = ToastError string | ToastSuccess string

record card =
  isLiked :: bool
  isSaved :: bool
  likesCount :: int
  toasts :: "toast list"

text \<open>
  The environment of one click: the user that \<open>supabase.auth.getUser()\<close> returns, and
  the fault of the first and of the second store call.
\<close>

record env =
  auth_user :: "uuid option"
  fault1 :: fault
  fault2 :: fault

text \<open>
  \<open>handleLike\<close>. The object that an awaited call resolves to is dropped: only a
  rejected promise reaches the \<open>catch\<close>. \<open>setLikesCount\<close> runs before the
  notification is sent and \<open>setIsLiked\<close> after it.
\<close>

definition handleLike :: "env \<Rightarrow> post_row \<Rightarrow> card \<times> store \<Rightarrow> card \<times> store" where
  "handleLike e post cs =
     (case cs of (c, s) \<Rightarrow>
      (case auth_user e of
         None \<Rightarrow> (c, s)
       | Some u \<Rightarrow>
           if isLiked c then
             (case request (fault1 e) (delete_like (Some u) (post_id post) u) s of (r1, s1) \<Rightarrow>
                if r1 = Thrown
                then (c\<lparr>toasts := toasts c @ [ToastError ''Failed to update like'']\<rparr>, s1)
                else (c\<lparr>likesCount := likesCount c - 1, isLiked := \<not> isLiked c\<rparr>, s1))
           else
             (case request (fault1 e)
                     (insert_like (Some u) \<lparr>like_user_id = u, like_post_id = post_id post\<rparr>) s of
                (r1, s1) \<Rightarrow>
                if r1 = Thrown
                then (c\<lparr>toasts := toasts c @ [ToastError ''Failed to update like'']\<rparr>, s1)
                else if post_user_id post \<noteq> u then
                  (case request (fault2 e)
                          (insert_notification (Some u)
                             \<lparr>notif_user_id = post_user_id post, actor_id = u, notif_type = ''like'',
                              notif_post_id = Some (post_id post), comment_id = None,
                              is_read = False\<rparr>) s1 of
                     (r2, s2) \<Rightarrow>
                     if r2 = Thrown
                     then (c\<lparr>likesCount := likesCount c + 1,
                             toasts := toasts c @ [ToastError ''Failed to update like'']\<rparr>, s2)
                     else (c\<lparr>likesCount := likesCount c + 1, isLiked := \<not> isLiked c\<rparr>, s2))
                else (c\<lparr>likesCount := likesCount c + 1, isLiked := \<not> isLiked c\<rparr>, s1))))"

text \<open>\<open>handleSave\<close>: one store call, a toast when a save has been inserted.\<close>

definition handleSave :: "env \<Rightarrow> post_row \<Rightarrow> card \<times> store \<Rightarrow> card \<times> store" where
  "handleSave e post cs =
     (case cs of (c, s) \<Rightarrow>
      (case auth_user e of
         None \<Rightarrow> (c, s)
       | Some u \<Rightarrow>
           if isSaved c then
             (case request (fault1 e) (delete_save (Some u) (post_id post) u) s of (r1, s1) \<Rightarrow>
                if r1 = Thrown
                then (c\<lparr>toasts := toasts c @ [ToastError ''Failed to save post'']\<rparr>, s1)
                else (c\<lparr>isSaved := \<not> isSaved c\<rparr>, s1))
           else
             (case request (fault1 e)
                     (insert_save (Some u) \<lparr>save_user_id = u, save_post_id = post_id post\<rparr>) s of
                (r1, s1) \<Rightarrow>
                if r1 = Thrown
                then (c\<lparr>toasts := toasts c @ [ToastError ''Failed to save post'']\<rparr>, s1)
                else (c\<lparr>toasts := toasts c @ [ToastSuccess ''Post saved''],
                        isSaved := \<not> isSaved c\<rparr>, s1))))"

text \<open>
  What the store holds about a post and an actor: whether the like row of the pair
  exists, and the rows that the feed's embedded \<open>likes (id)\<close> returns for the post,
  whose number is \<open>post.likes.length\<close>.
\<close>

definition liked :: "store \<Rightarrow> uuid \<Rightarrow> uuid \<Rightarrow> bool" where
  "liked s u p = (\<lparr>like_user_id = u, like_post_id = p\<rparr> \<in> set (likes s))"

definition likes_of :: "store \<Rightarrow> uuid \<Rightarrow> like_row list" where
  "likes_of s p = filter (\<lambda>r. like_post_id r = p) (likes s)"

text \<open>A run of clicks on the like button of one card, one environment per click.\<close>

definition clicks :: "env list \<Rightarrow> post_row \<Rightarrow> card \<times> store \<Rightarrow> card \<times> store" where
  "clicks es post cs = foldl (\<lambda>x e. handleLike e post x) cs es"

text \<open>
  \<open>checkUserInteractions\<close>, run when the card is mounted: \<open>.single()\<close> yields a
  row when exactly one row matches and \<open>null\<close> data otherwise, as it does when the
  call fails; the \<open>await\<close>s are not inside a \<open>try\<close>, so a rejected promise ends
  the function where it is.
\<close>

datatype 'a reply = Data 'a | Error db_error | Rejected

definition query :: "fault \<Rightarrow> 'a \<Rightarrow> 'a reply" where
  "query f v = (case f of Throws \<Rightarrow> Rejected | ReturnsError \<Rightarrow> Error Unavailable | NoFault \<Rightarrow> Data v)"

definition single :: "'a list \<Rightarrow> 'a option" where
  "single rows = (case rows of [r] \<Rightarrow> Some r | _ \<Rightarrow> None)"

definition select_like :: "uuid \<Rightarrow> uuid \<Rightarrow> store \<Rightarrow> like_row option" where
  "select_like p u s = single (filter (\<lambda>r. like_post_id r = p \<and> like_user_id r = u) (likes s))"

definition select_save :: "uuid option \<Rightarrow> uuid \<Rightarrow> uuid \<Rightarrow> store \<Rightarrow> save_row option" where
  "select_save uid p u s =
     single (filter (\<lambda>r. save_post_id r = p \<and> save_user_id r = u \<and> uid = Some (save_user_id r)) (saves s))"

definition checkUserInteractions :: "env \<Rightarrow> post_row \<Rightarrow> store \<Rightarrow> card \<Rightarrow> card" where
  "checkUserInteractions e post s c =
     (case auth_user e of
        None \<Rightarrow> c
      | Some u \<Rightarrow>
          (case query (fault1 e) (select_like (post_id post) u s) of
             Rejected \<Rightarrow> c
           | likeReply \<Rightarrow>
               (let likeData = (case likeReply of Data d \<Rightarrow> d | _ \<Rightarrow> None);
                    c1 = c\<lparr>isLiked := (likeData \<noteq> None)\<rparr>
                in case query (fault2 e) (select_save (Some u) (post_id post) u s) of
                     Rejected \<Rightarrow> c1
                   | saveReply \<Rightarrow>
                       (let saveData = (case saveReply of Data d \<Rightarrow> d | _ \<Rightarrow> None)
                        in c1\<lparr>isSaved := (saveData \<noteq> None)\<rparr>))))"

text \<open>
  A card agrees with the store about a user and a post when its \<open>isLiked\<close> is the
  presence of the pair's like row, the post exists, and the table \<open>likes\<close> satisfies
  its \<open>UNIQUE(user_id, post_id)\<close>.
\<close>

definition in_sync :: "uuid \<Rightarrow> post_row \<Rightarrow> card \<times> store \<Rightarrow> bool" where
  "in_sync u post cs =
     (isLiked (fst cs) = liked (snd cs) u (post_id post)
      \<and> post_exists (snd cs) (post_id post) \<and> distinct (likes (snd cs)))"

section \<open>Notifications page (markAllAsRead)\<close>

text \<open>
  \<open>UPDATE notifications SET is_read = true WHERE user_id = u AND is_read = false\<close>,
  under the policy "Users can update their own notifications"
  (\<open>auth.uid() = user_id\<close>). \<open>affected_rows\<close> is the number of rows the statement
  changes.
\<close>

definition to_mark :: "uuid option \<Rightarrow> uuid \<Rightarrow> notification_row \<Rightarrow> bool" where
  "to_mark uid u n = (notif_user_id n = u \<and> is_read n = False \<and> uid = Some (notif_user_id n))"

definition affected_rows :: "uuid option \<Rightarrow> uuid \<Rightarrow> store \<Rightarrow> nat" where
  "affected_rows uid u s = length (filter (to_mark uid u) (notifications s))"

definition update_is_read :: "uuid option \<Rightarrow> uuid \<Rightarrow> store \<Rightarrow> db_error + store" where
  "update_is_read uid u s =
     Inr (s\<lparr>notifications :=
              map (\<lambda>n. if to_mark uid u n then n\<lparr>is_read := True\<rparr> else n) (notifications s)\<rparr>)"

text \<open>
  \<open>markAllAsRead\<close> returns the store and what it wrote with \<open>console.error\<close>.
\<close>

definition markAllAsRead :: "env \<Rightarrow> store \<Rightarrow> store \<times> string list" where
  "markAllAsRead e s =
     (case auth_user e of
        None \<Rightarrow> (s, [])
      | Some u \<Rightarrow>
          (case request (fault1 e) (update_is_read (Some u) u) s of (r1, s1) \<Rightarrow>
             if r1 = Thrown then (s1, [''Error marking notifications as read:'']) else (s1, [])))"

section \<open>Feeds (src/pages/Home.tsx, src/pages/Explore.tsx)\<close>



text \<open>
  A post of the home feed with its embedded \<open>likes (id)\<close> and \<open>saves (id)\<close>; saves
  are visible to their owner only. (The embedded \<open>profiles\<close> and \<open>comments\<close> belong
  to tables that are not modelled.) A post of the explore grid has \<open>id\<close>,
  \<open>media_url\<close> and the embedded likes.
\<close>

record feed_post =
  fp_post :: post_row
  fp_likes :: "like_row list"
  fp_saves :: "save_row list"


definition embed_home :: "uuid option \<Rightarrow> store \<Rightarrow> post_row \<Rightarrow> feed_post" where
  "embed_home uid s p =
     \<lparr>fp_post = p, fp_likes = likes_of s (post_id p),
      fp_saves = filter (\<lambda>r. save_post_id r = post_id p \<and> uid = Some (save_user_id r)) (saves s)\<rparr>"


text \<open>
  The state with which a card is mounted on a post of the home feed:
  \<open>useState(false)\<close> twice and \<open>useState(post.likes.length)\<close>.
\<close>

definition mount :: "feed_post \<Rightarrow> card" where
  "mount fp = \<lparr>isLiked = False, isSaved = False, likesCount = int (length (fp_likes fp)), toasts = []\<rparr>"





section \<open>Create page (handleSubmit) and the storage bucket\<close>

text \<open>
  \<open>INSERT INTO storage.objects\<close> of the bucket \<open>posts\<close>: policy "Users can upload
  their own post media" (\<open>auth.uid()::text = (storage.foldername(name))[1]\<close>, the
  first folder of the object's name; a comparison with \<open>NULL\<close> does not hold). An
  upload under a name that is taken is refused.
\<close>

definition foldername1 :: "string \<Rightarrow> string option" where
  "foldername1 name =
     (if CHR ''/'' \<in> set name then Some (takeWhile (\<lambda>c. c \<noteq> CHR ''/'') name) else None)"

definition upload :: "uuid option \<Rightarrow> string \<Rightarrow> js_file \<Rightarrow> store \<Rightarrow> db_error + store" where
  "upload uid name f s =
     (if uid \<noteq> None \<and> uid = foldername1 name then
        if name \<in> set (map fst (objects s)) then Inl UniqueViolation
        else Inr (s\<lparr>objects := objects s @ [(name, f)]\<rparr>)
      else Inl RlsViolation)"

text \<open>
  \<open>INSERT INTO posts\<close>: policy "Users can create their own posts"
  (\<open>auth.uid() = user_id\<close>), \<open>CHECK (media_type IN ('image', 'video'))\<close>, the primary
  key. The table puts no constraint on \<open>caption\<close> or \<open>location\<close>. The row arrives
  with the values of its defaulted columns \<open>id\<close> and \<open>created_at\<close>.
\<close>

definition insert_post :: "uuid option \<Rightarrow> post_row \<Rightarrow> store \<Rightarrow> db_error + store" where
  "insert_post uid r s =
     (if uid = Some (post_user_id r) then
        if media_type r \<in> set [''image'', ''video''] then
          if post_id r \<in> set (map post_id (posts s)) then Inl UniqueViolation
          else Inr (s\<lparr>posts := posts s @ [r]\<rparr>)
        else Inl CheckViolation
      else Inl RlsViolation)"

text \<open>
  JavaScript's \<open>trim\<close>, on the white space and line terminators below code unit 256;
  \<open>name.split(".").pop()\<close>; \<open>startsWith\<close>; and the decimal digits of
  \<open>Date.now()\<close> in a template string.
\<close>

definition is_space :: "char \<Rightarrow> bool" where
  "is_space c = (c \<in> set [CHR 0x09, CHR 0x0A, CHR 0x0B, CHR 0x0C, CHR 0x0D, CHR 0x20, CHR 0xA0])"

definition trim :: "string \<Rightarrow> string" where
  "trim t = rev (dropWhile is_space (rev (dropWhile is_space t)))"

definition split_pop :: "string \<Rightarrow> string" where
  "split_pop name = rev (takeWhile (\<lambda>c. c \<noteq> CHR ''.'') (rev name))"

definition startsWith :: "string \<Rightarrow> string \<Rightarrow> bool" where
  "startsWith t pre = (take (length pre) t = pre)"

definition digit :: "nat \<Rightarrow> char" where
  "digit n = ''0123456789'' ! n"

function string_of_nat :: "nat \<Rightarrow> string" where
  "string_of_nat n = (if n < 10 then [digit n] else string_of_nat (n div 10) @ [digit (n mod 10)])"
  by pat_completeness auto
termination
  by (relation "measure id") auto

text \<open>
  The environment of one submit: what \<open>getUser\<close> returns, the faults of the upload
  (\<open>fault1\<close>) and of the insert (\<open>fault2\<close>), \<open>Date.now()\<close>, the values of the new
  row's defaulted columns, and the \<open>message\<close> of an error object.
  \<open>supabase.storage.from("posts").getPublicUrl\<close> belongs to the client library,
  which is outside the repository: the function from an object's name to its public
  URL is an input too, and nothing is assumed of it.
\<close>

record create_env = env +
  date_now :: nat
  getPublicUrl :: "string \<Rightarrow> string"
  new_post_id :: uuid
  db_now :: int
  message_of :: "response \<Rightarrow> string"

definition fileName_of :: "uuid \<Rightarrow> nat \<Rightarrow> js_file \<Rightarrow> string" where
  "fileName_of u now f = u @ ''/'' @ string_of_nat now @ ''.'' @ split_pop (file_name f)"

definition or_null :: "string \<Rightarrow> string option" where
  "or_null t = (if t = [] then None else Some t)"

definition error_toast :: "string \<Rightarrow> toast" where
  "error_toast msg = ToastError (if msg = [] then ''Failed to create post'' else msg)"

text \<open>
  \<open>handleSubmit\<close> returns the toast it shows and the store. After the success toast
  it navigates to the home page. It takes the caption and the location as the page's
  state has them and checks neither.
\<close>

definition handleSubmit ::
  "create_env \<Rightarrow> js_file option \<Rightarrow> string \<Rightarrow> string \<Rightarrow> store \<Rightarrow> toast \<times> store" where
  "handleSubmit e file_sel caption_text location_text s =
     (case file_sel of
        None \<Rightarrow> (ToastError ''Please select a file'', s)
      | Some f \<Rightarrow>
          (case auth_user e of
             None \<Rightarrow> (error_toast ''Not authenticated'', s)
           | Some u \<Rightarrow>
               (let fileName = fileName_of u (date_now e) f
                in case request (fault1 e) (upload (Some u) fileName f) s of (r1, s1) \<Rightarrow>
                   if r1 \<noteq> Ok then (error_toast (message_of e r1), s1)
                   else
                     (let publicUrl = getPublicUrl e fileName;
                          mediaType = (if startsWith (file_type f) ''video/'' then ''video'' else ''image'')
                      in case request (fault2 e)
                                (insert_post (Some u)
                                   \<lparr>post_id = new_post_id e, post_user_id = u, media_url = publicUrl,
                                    media_type = mediaType, caption = or_null (trim caption_text),
                                    location = or_null (trim location_text), created_at = db_now e\<rparr>) s1 of
                           (r2, s2) \<Rightarrow>
                           if r2 \<noteq> Ok then (error_toast (message_of e r2), s2)
                           else (ToastSuccess ''Post created successfully!'', s2)))))"

text \<open>
  The row that \<open>handleSubmit\<close> inserts, and the link between a post and the bucket
  under a public-URL function \<open>url\<close>: a post's media is written when its
  \<open>media_url\<close> is the public URL of the name of an object of the bucket.
\<close>

definition new_row :: "create_env \<Rightarrow> uuid \<Rightarrow> js_file \<Rightarrow> string \<Rightarrow> string \<Rightarrow> post_row" where
  "new_row e u f cap loc =
     \<lparr>post_id = new_post_id e, post_user_id = u,
      media_url = getPublicUrl e (fileName_of u (date_now e) f),
      media_type = (if startsWith (file_type f) ''video/'' then ''video'' else ''image''),
      caption = or_null (trim cap), location = or_null (trim loc), created_at = db_now e\<rparr>"


section \<open>Reachable stores\<close>

text \<open>
  The stores that the operations above produce from the empty tables of the
  migration. The repository has no client code that writes \<open>follows\<close>; its rows can
  only come from statements on the table itself.
\<close>

inductive reachable :: "store \<Rightarrow> bool" where
  reach_empty: "reachable empty_store"
| reach_like: "reachable s \<Longrightarrow> reachable (snd (handleLike e post (c, s)))"
| reach_save: "reachable s \<Longrightarrow> reachable (snd (handleSave e post (c, s)))"
| reach_read: "reachable s \<Longrightarrow> reachable (fst (markAllAsRead e s))"
| reach_submit: "reachable s \<Longrightarrow> reachable (snd (handleSubmit ce fl cap loc s))"
| reach_follow: "reachable s \<Longrightarrow> insert_follow uid r s = Inr s' \<Longrightarrow> reachable s'"
| reach_unfollow: "reachable s \<Longrightarrow> delete_follow uid r s = Inr s' \<Longrightarrow> reachable s'"


text \<open>The two invariants of a store that the claims speak of.\<close>

definition no_self_notification :: "store \<Rightarrow> bool" where
  "no_self_notification s = list_all (\<lambda>n. notif_user_id n \<noteq> actor_id n) (notifications s)"

definition no_self_follow :: "store \<Rightarrow> bool" where
  "no_self_follow s = list_all (\<lambda>r. follower_id r \<noteq> following_id r) (follows s)"

section \<open>A scenario\<close>

text \<open>
  Ann publishes a picture; Bob opens the feed. \<open>ann_store\<close> is the store after Ann's
  post, \<open>bob_liked_store\<close> the store in which Bob's like of it is recorded already.
\<close>

definition ann_file :: js_file where
  "ann_file = \<lparr>file_name = ''cat.png'', file_type = ''image/png'', file_bytes = [137, 80]\<rparr>"

definition ann_env :: create_env where
  "ann_env = \<lparr>auth_user = Some ''ann'', fault1 = NoFault, fault2 = NoFault, date_now = 17,
     getPublicUrl = (\<lambda>name. ''https://cdn/posts/'' @ name), new_post_id = ''p1'', db_now = 100,
     message_of = (\<lambda>r. [])\<rparr>"

definition ann_post :: post_row where
  "ann_post = \<lparr>post_id = ''p1'', post_user_id = ''ann'',
     media_url = ''https://cdn/posts/ann/17.png'', media_type = ''image'',
     caption = Some ''hello'', location = None, created_at = 100\<rparr>"

definition ann_store :: store where
  "ann_store = \<lparr>posts = [ann_post], likes = [], saves = [], follows = [], notifications = [],
     objects = [(''ann/17.png'', ann_file)]\<rparr>"

definition bob_liked_store :: store where
  "bob_liked_store = ann_store\<lparr>likes := [\<lparr>like_user_id = ''bob'', like_post_id = ''p1''\<rparr>]\<rparr>"

definition click_of :: "string \<Rightarrow> env" where
  "click_of u = \<lparr>auth_user = Some u, fault1 = NoFault, fault2 = NoFault\<rparr>"

definition like_notification :: "uuid \<Rightarrow> post_row \<Rightarrow> notification_row" where
  "like_notification u post =
     \<lparr>notif_user_id = post_user_id post, actor_id = u, notif_type = ''like'',
      notif_post_id = Some (post_id post), comment_id = None, is_read = False\<rparr>"





definition inbox_store :: store where
  "inbox_store = ann_store\<lparr>notifications :=
     [like_notification ''bob'' ann_post,
      \<lparr>notif_user_id = ''bob'', actor_id = ''ann'', notif_type = ''follow'', notif_post_id = None,
       comment_id = None, is_read = False\<rparr>,
      (like_notification ''cy'' ann_post)\<lparr>is_read := True\<rparr>]\<rparr>"

section \<open>Store calls: what a call leaves alone\<close>

lemmas scenario_defs = click_of_def mount_def embed_home_def likes_of_def liked_def
  post_exists_def ann_store_def ann_post_def bob_liked_store_def like_notification_def

lemma request_not_thrown: "f \<noteq> Throws \<Longrightarrow> fst (request f stmt s) \<noteq> Thrown"
  by (cases f; cases "stmt s") (simp_all add: request_def)

lemma request_NoFault: "request NoFault stmt s = (case stmt s of Inl e \<Rightarrow> (Err e, s) | Inr s' \<Rightarrow> (Ok, s'))"
  by (simp add: request_def)


lemma request_frame:
  assumes "\<And>s'. stmt s = Inr s' \<Longrightarrow> g s' = g s"
  shows "g (snd (request f stmt s)) = g s"
proof (cases f)
  case NoFault
  show ?thesis
  proof (cases "stmt s")
    case (Inl e)
    with NoFault show ?thesis by (simp add: request_def)
  next
    case (Inr s')
    from assms[OF Inr] NoFault Inr show ?thesis by (simp add: request_def)
  qed
qed (simp_all add: request_def)

lemma insert_like_frame:
  "insert_like uid r s = Inr s' \<Longrightarrow>
   posts s' = posts s \<and> saves s' = saves s \<and> follows s' = follows s
   \<and> notifications s' = notifications s \<and> objects s' = objects s"
  by (auto simp: insert_like_def split: if_splits)

lemma delete_like_frame:
  "delete_like uid p u s = Inr s' \<Longrightarrow>
   posts s' = posts s \<and> saves s' = saves s \<and> follows s' = follows s
   \<and> notifications s' = notifications s \<and> objects s' = objects s"
  by (auto simp: delete_like_def)

lemma insert_save_frame:
  "insert_save uid r s = Inr s' \<Longrightarrow>
   posts s' = posts s \<and> likes s' = likes s \<and> follows s' = follows s
   \<and> notifications s' = notifications s \<and> objects s' = objects s"
  by (auto simp: insert_save_def split: if_splits)

lemma delete_save_frame:
  "delete_save uid p u s = Inr s' \<Longrightarrow>
   posts s' = posts s \<and> likes s' = likes s \<and> follows s' = follows s
   \<and> notifications s' = notifications s \<and> objects s' = objects s"
  by (auto simp: delete_save_def)

lemma insert_notification_frame:
  "insert_notification uid r s = Inr s' \<Longrightarrow>
   posts s' = posts s \<and> likes s' = likes s \<and> saves s' = saves s \<and> follows s' = follows s
   \<and> objects s' = objects s \<and> notifications s' = notifications s @ [r]"
  by (auto simp: insert_notification_def split: if_splits option.splits)

lemma update_is_read_frame:
  "update_is_read uid u s = Inr s' \<Longrightarrow>
   posts s' = posts s \<and> likes s' = likes s \<and> saves s' = saves s \<and> follows s' = follows s
   \<and> objects s' = objects s"
  by (auto simp: update_is_read_def)

lemma upload_frame:
  "upload uid name f s = Inr s' \<Longrightarrow>
   posts s' = posts s \<and> likes s' = likes s \<and> saves s' = saves s \<and> follows s' = follows s
   \<and> notifications s' = notifications s \<and> objects s' = objects s @ [(name, f)]"
  by (auto simp: upload_def split: if_splits)

lemma insert_post_frame:
  "insert_post uid r s = Inr s' \<Longrightarrow>
   likes s' = likes s \<and> saves s' = saves s \<and> follows s' = follows s
   \<and> notifications s' = notifications s \<and> objects s' = objects s \<and> posts s' = posts s @ [r]"
  by (auto simp: insert_post_def split: if_splits)


lemma request_insert_like:
  "posts (snd (request f (insert_like uid r) s)) = posts s"
  "saves (snd (request f (insert_like uid r) s)) = saves s"
  "follows (snd (request f (insert_like uid r) s)) = follows s"
  "notifications (snd (request f (insert_like uid r) s)) = notifications s"
  "objects (snd (request f (insert_like uid r) s)) = objects s"
  by (rule request_frame, simp add: insert_like_frame)+

lemma request_delete_like:
  "posts (snd (request f (delete_like uid p u) s)) = posts s"
  "saves (snd (request f (delete_like uid p u) s)) = saves s"
  "follows (snd (request f (delete_like uid p u) s)) = follows s"
  "notifications (snd (request f (delete_like uid p u) s)) = notifications s"
  "objects (snd (request f (delete_like uid p u) s)) = objects s"
  by (rule request_frame, simp add: delete_like_frame)+

lemma request_insert_save:
  "posts (snd (request f (insert_save uid r) s)) = posts s"
  "likes (snd (request f (insert_save uid r) s)) = likes s"
  "follows (snd (request f (insert_save uid r) s)) = follows s"
  "notifications (snd (request f (insert_save uid r) s)) = notifications s"
  "objects (snd (request f (insert_save uid r) s)) = objects s"
  by (rule request_frame, simp add: insert_save_frame)+

lemma request_delete_save:
  "posts (snd (request f (delete_save uid p u) s)) = posts s"
  "likes (snd (request f (delete_save uid p u) s)) = likes s"
  "follows (snd (request f (delete_save uid p u) s)) = follows s"
  "notifications (snd (request f (delete_save uid p u) s)) = notifications s"
  "objects (snd (request f (delete_save uid p u) s)) = objects s"
  by (rule request_frame, simp add: delete_save_frame)+

lemma request_insert_notification:
  "posts (snd (request f (insert_notification uid r) s)) = posts s"
  "likes (snd (request f (insert_notification uid r) s)) = likes s"
  "saves (snd (request f (insert_notification uid r) s)) = saves s"
  "follows (snd (request f (insert_notification uid r) s)) = follows s"
  "objects (snd (request f (insert_notification uid r) s)) = objects s"
  by (rule request_frame, simp add: insert_notification_frame)+

lemma request_update_is_read:
  "posts (snd (request f (update_is_read uid u) s)) = posts s"
  "likes (snd (request f (update_is_read uid u) s)) = likes s"
  "saves (snd (request f (update_is_read uid u) s)) = saves s"
  "follows (snd (request f (update_is_read uid u) s)) = follows s"
  "objects (snd (request f (update_is_read uid u) s)) = objects s"
  by (rule request_frame, simp add: update_is_read_frame)+

lemma request_upload:
  "posts (snd (request f (upload uid name fl) s)) = posts s"
  "likes (snd (request f (upload uid name fl) s)) = likes s"
  "saves (snd (request f (upload uid name fl) s)) = saves s"
  "follows (snd (request f (upload uid name fl) s)) = follows s"
  "notifications (snd (request f (upload uid name fl) s)) = notifications s"
  by (rule request_frame, simp add: upload_frame)+

lemma request_insert_post:
  "likes (snd (request f (insert_post uid r) s)) = likes s"
  "saves (snd (request f (insert_post uid r) s)) = saves s"
  "follows (snd (request f (insert_post uid r) s)) = follows s"
  "notifications (snd (request f (insert_post uid r) s)) = notifications s"
  "objects (snd (request f (insert_post uid r) s)) = objects s"
  by (rule request_frame, simp add: insert_post_frame)+

lemma handleSave_frame:
  "posts (snd (handleSave e post (c, s))) = posts s
   \<and> likes (snd (handleSave e post (c, s))) = likes s
   \<and> follows (snd (handleSave e post (c, s))) = follows s
   \<and> notifications (snd (handleSave e post (c, s))) = notifications s
   \<and> objects (snd (handleSave e post (c, s))) = objects s"
  by (simp add: handleSave_def split_beta request_insert_save request_delete_save
       split: option.splits)

lemma handleSave_card:
  "isLiked (fst (handleSave e post (c, s))) = isLiked c
   \<and> likesCount (fst (handleSave e post (c, s))) = likesCount c"
  by (simp add: handleSave_def split_beta split: option.splits)

lemma handleLike_frame:
  "posts (snd (handleLike e post (c, s))) = posts s
   \<and> saves (snd (handleLike e post (c, s))) = saves s
   \<and> follows (snd (handleLike e post (c, s))) = follows s
   \<and> objects (snd (handleLike e post (c, s))) = objects s"
  by (simp add: handleLike_def split_beta request_insert_like request_delete_like
       request_insert_notification split: option.splits)

lemma markAllAsRead_frame:
  "posts (fst (markAllAsRead e s)) = posts s
   \<and> likes (fst (markAllAsRead e s)) = likes s
   \<and> saves (fst (markAllAsRead e s)) = saves s
   \<and> follows (fst (markAllAsRead e s)) = follows s
   \<and> objects (fst (markAllAsRead e s)) = objects s"
  by (simp add: markAllAsRead_def split_beta request_update_is_read split: option.splits)

lemma handleSubmit_frame:
  "likes (snd (handleSubmit e fl cap loc s)) = likes s
   \<and> saves (snd (handleSubmit e fl cap loc s)) = saves s
   \<and> follows (snd (handleSubmit e fl cap loc s)) = follows s
   \<and> notifications (snd (handleSubmit e fl cap loc s)) = notifications s"
  by (simp add: handleSubmit_def split_beta Let_def request_upload request_insert_post
       split: option.splits)

section \<open>The like toggle\<close>

lemma handleLike_card:
  assumes "auth_user e = Some u" "fault1 e \<noteq> Throws" "fault2 e \<noteq> Throws"
  shows "isLiked (fst (handleLike e post (c, s))) = (\<not> isLiked c)
       \<and> likesCount (fst (handleLike e post (c, s))) = likesCount c + (if isLiked c then - 1 else 1)"
  using assms request_not_thrown[of "fault1 e"] request_not_thrown[of "fault2 e"]
  by (simp add: handleLike_def split_beta)

lemma filter_absent: "x \<notin> set xs \<Longrightarrow> filter (\<lambda>r. r \<noteq> x) xs = xs"
  by (induction xs) auto

lemma length_filter_remove1:
  "distinct xs \<Longrightarrow> x \<in> set xs \<Longrightarrow> P x \<Longrightarrow>
   int (length (filter P (filter (\<lambda>r. r \<noteq> x) xs))) = int (length (filter P xs)) - 1"
proof (induction xs)
  case Nil
  then show ?case by simp
next
  case (Cons y ys)
  show ?case
  proof (cases "y = x")
    case True
    with Cons.prems have "x \<notin> set ys" by simp
    with True Cons.prems show ?thesis by (simp add: filter_absent)
  next
    case False
    with Cons show ?thesis by simp
  qed
qed

lemma delete_like_pred:
  "(\<lambda>r. \<not> (like_post_id r = p \<and> like_user_id r = u \<and> Some u = Some (like_user_id r)))
   = (\<lambda>r. r \<noteq> \<lparr>like_user_id = u, like_post_id = p\<rparr>)"
  by (rule ext) auto

lemma delete_like_eq:
  "delete_like (Some u) p u s
   = Inr (s\<lparr>likes := filter (\<lambda>r. r \<noteq> \<lparr>like_user_id = u, like_post_id = p\<rparr>) (likes s)\<rparr>)"
  unfolding delete_like_def delete_like_pred ..

lemma handleLike_store:
  assumes "auth_user e = Some u" "fault1 e = NoFault" "fault2 e \<noteq> Throws"
    and "in_sync u post (c, s)"
  shows "in_sync u post (handleLike e post (c, s))
       \<and> liked (snd (handleLike e post (c, s))) u (post_id post) = (\<not> liked s u (post_id post))
       \<and> int (length (likes_of (snd (handleLike e post (c, s))) (post_id post)))
           = int (length (likes_of s (post_id post))) + (if liked s u (post_id post) then - 1 else 1)"
proof (cases "isLiked c")
  case True
  with assms have mem: "\<lparr>like_user_id = u, like_post_id = post_id post\<rparr> \<in> set (likes s)"
    and d: "distinct (likes s)"
    by (simp_all add: in_sync_def liked_def)
  have res: "handleLike e post (c, s)
     = (c\<lparr>likesCount := likesCount c - 1, isLiked := False\<rparr>,
        s\<lparr>likes := filter (\<lambda>r. r \<noteq> \<lparr>like_user_id = u, like_post_id = post_id post\<rparr>) (likes s)\<rparr>)"
    using assms(1,2) True by (simp add: handleLike_def request_NoFault delete_like_eq)
  from length_filter_remove1[OF d mem, of "\<lambda>r. like_post_id r = post_id post"]
  show ?thesis
    using assms(4) mem d unfolding res
    by (simp add: in_sync_def liked_def likes_of_def post_exists_def)
next
  case False
  with assms request_not_thrown[of "fault2 e"] show ?thesis
    by (simp add: handleLike_def request_NoFault insert_like_def in_sync_def liked_def likes_of_def
        post_exists_def split_beta request_insert_notification)
qed

lemma clicks_snoc: "clicks (es @ [e]) post cs = handleLike e post (clicks es post cs)"
  by (simp add: clicks_def)

lemma clicks_card:
  assumes "list_all (\<lambda>e. auth_user e = Some u \<and> fault1 e \<noteq> Throws \<and> fault2 e \<noteq> Throws) es"
  shows "isLiked (fst (clicks es post (c, s))) = (if even (length es) then isLiked c else \<not> isLiked c)
       \<and> likesCount (fst (clicks es post (c, s)))
           = likesCount c + (if even (length es) then 0 else if isLiked c then - 1 else 1)"
  using assms
proof (induction es rule: rev_induct)
  case Nil
  show ?case by (simp add: clicks_def)
next
  case (snoc e es)
  obtain c1 s1 where cs1: "clicks es post (c, s) = (c1, s1)" by (cases "clicks es post (c, s)")
  from snoc.prems have e: "auth_user e = Some u" "fault1 e \<noteq> Throws" "fault2 e \<noteq> Throws"
    and es: "list_all (\<lambda>e. auth_user e = Some u \<and> fault1 e \<noteq> Throws \<and> fault2 e \<noteq> Throws) es"
    by simp_all
  from snoc.IH[OF es] cs1
  have ih: "isLiked c1 = (if even (length es) then isLiked c else \<not> isLiked c)"
    "likesCount c1 = likesCount c + (if even (length es) then 0 else if isLiked c then - 1 else 1)"
    by simp_all
  from handleLike_card[OF e, of post c1 s1] ih show ?case
    by (simp add: clicks_snoc cs1)
qed

lemma clicks_store:
  assumes "list_all (\<lambda>e. auth_user e = Some u \<and> fault1 e = NoFault \<and> fault2 e \<noteq> Throws) es"
    and "in_sync u post (c, s)"
  shows "in_sync u post (clicks es post (c, s))
       \<and> liked (snd (clicks es post (c, s))) u (post_id post)
           = (if even (length es) then liked s u (post_id post) else \<not> liked s u (post_id post))
       \<and> int (length (likes_of (snd (clicks es post (c, s))) (post_id post)))
           = int (length (likes_of s (post_id post)))
             + (if even (length es) then 0 else if liked s u (post_id post) then - 1 else 1)"
  using assms(1)
proof (induction es rule: rev_induct)
  case Nil
  show ?case using assms(2) by (simp add: clicks_def)
next
  case (snoc e es)
  obtain c1 s1 where cs1: "clicks es post (c, s) = (c1, s1)" by (cases "clicks es post (c, s)")
  from snoc.prems have e: "auth_user e = Some u" "fault1 e = NoFault" "fault2 e \<noteq> Throws"
    and es: "list_all (\<lambda>e. auth_user e = Some u \<and> fault1 e = NoFault \<and> fault2 e \<noteq> Throws) es"
    by simp_all
  from snoc.IH[OF es] cs1
  have ih: "in_sync u post (c1, s1)"
    "liked s1 u (post_id post) = (if even (length es) then liked s u (post_id post) else \<not> liked s u (post_id post))"
    "int (length (likes_of s1 (post_id post))) = int (length (likes_of s (post_id post)))
             + (if even (length es) then 0 else if liked s u (post_id post) then - 1 else 1)"
    by simp_all
  from handleLike_store[OF e ih(1)] ih(2,3) show ?case
    by (simp add: clicks_snoc cs1)
qed

text \<open>
  When the first query of \<open>checkUserInteractions\<close> reaches the store, the card's
  \<open>isLiked\<close> is the presence of the like row.
\<close>

lemma filter_eq_distinct:
  "distinct xs \<Longrightarrow> filter (\<lambda>r. r = x) xs = (if x \<in> set xs then [x] else [])"
  by (induction xs) auto

lemma select_like_distinct:
  assumes "distinct (likes s)"
  shows "(select_like p u s \<noteq> None) = liked s u p"
proof -
  have "(\<lambda>r. like_post_id r = p \<and> like_user_id r = u) = (\<lambda>r. r = \<lparr>like_user_id = u, like_post_id = p\<rparr>)"
    by (rule ext) auto
  then show ?thesis
    using filter_eq_distinct[OF assms, of "\<lparr>like_user_id = u, like_post_id = p\<rparr>"]
    by (simp add: select_like_def single_def liked_def)
qed

lemma checkUserInteractions_isLiked:
  assumes "auth_user e = Some u" "fault1 e = NoFault" "distinct (likes s)"
  shows "isLiked (checkUserInteractions e post s c) = liked s u (post_id post)"
  using assms(1,2) select_like_distinct[OF assms(3), of "post_id post" u]
  by (cases "fault2 e") (simp_all add: checkUserInteractions_def query_def Let_def)

text \<open>
  Whatever becomes of the notification, the table \<open>likes\<close> is as the like insert
  left it.
\<close>

lemma handleLike_keeps_like:
  assumes "auth_user e = Some u" "\<not> isLiked c"
  shows "likes (snd (handleLike e post (c, s)))
       = likes (snd (request (fault1 e)
           (insert_like (Some u) \<lparr>like_user_id = u, like_post_id = post_id post\<rparr>) s))"
  using assms by (simp add: handleLike_def split_beta request_insert_notification)

section \<open>The scenario's stores are reachable\<close>

lemma string_of_nat_17: "string_of_nat 17 = ''17''"
  by (simp add: digit_def)

lemma ann_submit:
  "handleSubmit ann_env (Some ann_file) '' hello  '' [] empty_store
   = (ToastSuccess ''Post created successfully!'', ann_store)"
  by (simp add: handleSubmit_def ann_env_def ann_file_def ann_store_def ann_post_def empty_store_def
      fileName_of_def split_pop_def request_def upload_def foldername1_def insert_post_def
      startsWith_def or_null_def trim_def is_space_def digit_def Let_def)

lemma ann_store_reachable: "reachable ann_store"
  using reach_submit[OF reach_empty, of ann_env "Some ann_file" "'' hello  ''" "[]"]
  by (simp add: ann_submit)

section \<open>Claims about the like toggle\<close>

text \<open>
  What holds of a run of clicks in which \<open>getUser\<close> returns \<open>u\<close> and no store
  call throws: whatever the card's \<open>isLiked\<close> and \<open>likesCount\<close> were, an even
  number of clicks leaves both as they were, and an odd number negates \<open>isLiked\<close>
  and changes \<open>likesCount\<close> by exactly one. The store follows only when every like
  write reaches it and the card agreed with it at the start.
\<close>

lemma clicks_parity:
  assumes "list_all (\<lambda>e. auth_user e = Some u \<and> fault1 e \<noteq> Throws \<and> fault2 e \<noteq> Throws) es"
  shows "isLiked (fst (clicks es post (c, s))) = (if even (length es) then isLiked c else \<not> isLiked c)
       \<and> likesCount (fst (clicks es post (c, s)))
           = likesCount c + (if even (length es) then 0 else if isLiked c then - 1 else 1)
       \<and> (list_all (\<lambda>e. fault1 e = NoFault) es \<and> in_sync u post (c, s) \<longrightarrow>
            liked (snd (clicks es post (c, s))) u (post_id post)
              = (if even (length es) then liked s u (post_id post) else \<not> liked s u (post_id post))
          \<and> int (length (likes_of (snd (clicks es post (c, s))) (post_id post)))
              = int (length (likes_of s (post_id post)))
                + (if even (length es) then 0 else if liked s u (post_id post) then - 1 else 1)
          \<and> in_sync u post (clicks es post (c, s)))"
proof -
  have store: "list_all (\<lambda>e. auth_user e = Some u \<and> fault1 e = NoFault \<and> fault2 e \<noteq> Throws) es"
    if "list_all (\<lambda>e. fault1 e = NoFault) es"
    using assms that by (simp add: list_all_iff)
  show ?thesis
    using clicks_card[OF assms, of post c s] clicks_store[OF store, of post c s]
    by blast
qed

text \<open>Bob clicks three times on Ann's post, which he had not liked.\<close>

lemma clicks_parity_example:
  "in_sync ''bob'' ann_post (mount (embed_home (Some ''bob'') ann_store ann_post), ann_store)
   \<and> isLiked (fst (clicks [click_of ''bob'', click_of ''bob'', click_of ''bob''] ann_post
         (mount (embed_home (Some ''bob'') ann_store ann_post), ann_store)))
   \<and> likesCount (fst (clicks [click_of ''bob'', click_of ''bob'', click_of ''bob''] ann_post
         (mount (embed_home (Some ''bob'') ann_store ann_post), ann_store))) = 1
   \<and> liked (snd (clicks [click_of ''bob'', click_of ''bob'', click_of ''bob''] ann_post
         (mount (embed_home (Some ''bob'') ann_store ann_post), ann_store))) ''bob'' ''p1''
   \<and> length (likes_of (snd (clicks [click_of ''bob'', click_of ''bob'', click_of ''bob''] ann_post
         (mount (embed_home (Some ''bob'') ann_store ann_post), ann_store))) ''p1'') = 1"
  using clicks_parity[of "''bob''" "[click_of ''bob'', click_of ''bob'', click_of ''bob'']"
      ann_post "mount (embed_home (Some ''bob'') ann_store ann_post)" ann_store]
  by (simp add: click_of_def in_sync_def mount_def embed_home_def likes_of_def liked_def
      post_exists_def ann_store_def ann_post_def)

text \<open>
  C1 (the code departs from it). Bob's like of Ann's post is in the store and his
  card is just mounted, with \<open>isLiked = False\<close> and the count 1. One click: the
  insert is refused as a duplicate, which the code does not notice; the like row and
  the number of rows are not changed, the card shows a like and 2. Two clicks: the
  card is as at the start, and the like row, present at the start, is deleted (one
  row before, none after).
\<close>

theorem like_toggle_loses_like:
  "liked bob_liked_store ''bob'' ''p1''
   \<and> length (likes_of bob_liked_store ''p1'') = 1
   \<and> isLiked (mount (embed_home (Some ''bob'') bob_liked_store ann_post)) = False
   \<and> likesCount (mount (embed_home (Some ''bob'') bob_liked_store ann_post)) = 1
   \<and> liked (snd (clicks [click_of ''bob''] ann_post
        (mount (embed_home (Some ''bob'') bob_liked_store ann_post), bob_liked_store))) ''bob'' ''p1''
   \<and> length (likes_of (snd (clicks [click_of ''bob''] ann_post
        (mount (embed_home (Some ''bob'') bob_liked_store ann_post), bob_liked_store))) ''p1'') = 1
   \<and> isLiked (fst (clicks [click_of ''bob'', click_of ''bob''] ann_post
        (mount (embed_home (Some ''bob'') bob_liked_store ann_post), bob_liked_store))) = False
   \<and> likesCount (fst (clicks [click_of ''bob'', click_of ''bob''] ann_post
        (mount (embed_home (Some ''bob'') bob_liked_store ann_post), bob_liked_store))) = 1
   \<and> \<not> liked (snd (clicks [click_of ''bob'', click_of ''bob''] ann_post
        (mount (embed_home (Some ''bob'') bob_liked_store ann_post), bob_liked_store))) ''bob'' ''p1''
   \<and> length (likes_of (snd (clicks [click_of ''bob'', click_of ''bob''] ann_post
        (mount (embed_home (Some ''bob'') bob_liked_store ann_post), bob_liked_store))) ''p1'') = 0"
  by (simp add: scenario_defs clicks_def handleLike_def request_def insert_like_def delete_like_def
      insert_notification_def)

text \<open>
  C2 (the code departs from it). Bob's like of Ann's post is in the store, and his
  card, just mounted, still has \<open>isLiked = False\<close> and the count 1. He clicks:
  the insert violates \<open>UNIQUE(user_id, post_id)\<close>, the answer's \<open>error\<close> is not
  looked at, and the card shows 2 likes while the store has one like row. The same
  happens when the insert is answered with any other error value: the card shows 1,
  the store has no row.
\<close>

theorem like_count_diverges:
  "insert_like (Some ''bob'') \<lparr>like_user_id = ''bob'', like_post_id = ''p1''\<rparr> bob_liked_store
     = Inl UniqueViolation
   \<and> likesCount (mount (embed_home (Some ''bob'') bob_liked_store ann_post)) = 1
   \<and> likesCount (fst (handleLike (click_of ''bob'') ann_post
        (mount (embed_home (Some ''bob'') bob_liked_store ann_post), bob_liked_store))) = 2
   \<and> length (likes_of (snd (handleLike (click_of ''bob'') ann_post
        (mount (embed_home (Some ''bob'') bob_liked_store ann_post), bob_liked_store))) ''p1'') = 1
   \<and> likesCount (fst (handleLike \<lparr>auth_user = Some ''bob'', fault1 = ReturnsError, fault2 = NoFault\<rparr>
        ann_post (mount (embed_home (Some ''bob'') ann_store ann_post), ann_store))) = 1
   \<and> length (likes_of (snd (handleLike \<lparr>auth_user = Some ''bob'', fault1 = ReturnsError, fault2 = NoFault\<rparr>
        ann_post (mount (embed_home (Some ''bob'') ann_store ann_post), ann_store))) ''p1'') = 0"
  by (simp add: scenario_defs handleLike_def request_def insert_like_def insert_notification_def)

text \<open>
  C4 (the code departs from it). In the same two situations the like insert fails
  and the notification is inserted all the same: after the refused duplicate, and
  after an insert answered with an error value, which leaves a notification of a like
  that has no row.
\<close>

theorem notification_after_failed_like:
  "request NoFault (insert_like (Some ''bob'') \<lparr>like_user_id = ''bob'', like_post_id = ''p1''\<rparr>)
      bob_liked_store = (Err UniqueViolation, bob_liked_store)
   \<and> notifications (snd (handleLike (click_of ''bob'') ann_post
        (mount (embed_home (Some ''bob'') bob_liked_store ann_post), bob_liked_store)))
      = [like_notification ''bob'' ann_post]
   \<and> likes (snd (handleLike \<lparr>auth_user = Some ''bob'', fault1 = ReturnsError, fault2 = NoFault\<rparr>
        ann_post (mount (embed_home (Some ''bob'') ann_store ann_post), ann_store))) = []
   \<and> notifications (snd (handleLike \<lparr>auth_user = Some ''bob'', fault1 = ReturnsError, fault2 = NoFault\<rparr>
        ann_post (mount (embed_home (Some ''bob'') ann_store ann_post), ann_store)))
      = [like_notification ''bob'' ann_post]"
  by (simp add: scenario_defs handleLike_def request_def insert_like_def insert_notification_def)

section \<open>Notifications never go to their actor\<close>

lemma request_notification_cases:
  "notifications (snd (request f (insert_notification uid r) s)) = notifications s
   \<or> notifications (snd (request f (insert_notification uid r) s)) = notifications s @ [r]"
  by (cases f; cases "insert_notification uid r s")
     (auto simp: request_def dest: insert_notification_frame)

lemma handleLike_notifications:
  "notifications (snd (handleLike e post (c, s))) = notifications s
   \<or> (\<exists>u. auth_user e = Some u \<and> post_user_id post \<noteq> u
         \<and> notifications (snd (handleLike e post (c, s))) = notifications s @ [like_notification u post])"
proof (cases "auth_user e")
  case None
  then show ?thesis by (simp add: handleLike_def)
next
  case (Some u)
  let ?s1 = "snd (request (fault1 e) (insert_like (Some u) \<lparr>like_user_id = u, like_post_id = post_id post\<rparr>) s)"
  from request_notification_cases[of "fault2 e" "Some u" "like_notification u post" ?s1]
  show ?thesis using Some
    by (auto simp: handleLike_def split_beta request_insert_like request_delete_like
        like_notification_def)
qed

lemma handleLike_own_post:
  "auth_user e = Some (post_user_id post) \<Longrightarrow>
   notifications (snd (handleLike e post (c, s))) = notifications s"
  by (simp add: handleLike_def split_beta request_insert_like request_delete_like)

lemma update_is_read_no_self:
  "no_self_notification s \<Longrightarrow> no_self_notification (snd (request f (update_is_read uid u) s))"
  by (cases f) (auto simp: request_def update_is_read_def no_self_notification_def list_all_iff)

lemma reachable_invariants:
  "reachable s \<Longrightarrow> no_self_notification s \<and> no_self_follow s"
proof (induction rule: reachable.induct)
  case reach_empty
  show ?case by (simp add: empty_store_def no_self_notification_def no_self_follow_def)
next
  case (reach_like s e post c)
  from handleLike_notifications[of e post c s] reach_like.IH handleLike_frame[of e post c s]
  show ?case
    by (auto simp: no_self_notification_def no_self_follow_def like_notification_def)
next
  case (reach_save s e post c)
  with handleSave_frame[of e post c s] show ?case
    by (simp add: no_self_notification_def no_self_follow_def)
next
  case (reach_read s e)
  have "no_self_notification (fst (markAllAsRead e s))"
    using reach_read.IH update_is_read_no_self[of s]
    by (simp add: markAllAsRead_def split_beta split: option.splits)
  with reach_read.IH markAllAsRead_frame[of e s] show ?case
    by (simp add: no_self_follow_def)
next
  case (reach_submit s ce fl cap loc)
  with handleSubmit_frame[of ce fl cap loc s] show ?case
    by (simp add: no_self_notification_def no_self_follow_def)
next
  case (reach_follow s uid r s')
  then show ?case
    by (auto simp: insert_follow_def no_self_notification_def no_self_follow_def split: if_splits)
next
  case (reach_unfollow s uid r s')
  then show ?case
    by (auto simp: delete_follow_def no_self_notification_def no_self_follow_def list_all_iff)
qed


text \<open>
  C3. No notification goes to its own actor. When the actor is the post's owner,
  \<open>handleLike\<close> leaves the table \<open>notifications\<close> as it was. Whatever the inputs,
  \<open>handleLike\<close> only appends to the table, and every row it appends has a recipient
  other than its actor. In every reachable store no notification has its actor as
  recipient.
\<close>

theorem no_notification_to_self:
  "(auth_user e = Some (post_user_id post) \<longrightarrow>
      notifications (snd (handleLike e post (c, s))) = notifications s)
   \<and> take (length (notifications s)) (notifications (snd (handleLike e post (c, s)))) = notifications s
   \<and> list_all (\<lambda>n. notif_user_id n \<noteq> actor_id n)
        (drop (length (notifications s)) (notifications (snd (handleLike e post (c, s)))))
   \<and> (reachable t \<longrightarrow> list_all (\<lambda>n. notif_user_id n \<noteq> actor_id n) (notifications t))"
  using handleLike_own_post[of e post c s] handleLike_notifications[of e post c s]
    reachable_invariants[of t]
  by (auto simp: no_self_notification_def like_notification_def)

theorem no_notification_to_self_witness:
  "auth_user (click_of ''ann'') = Some (post_user_id ann_post)
   \<and> liked (snd (handleLike (click_of ''ann'') ann_post
        (mount (embed_home (Some ''ann'') ann_store ann_post), ann_store))) ''ann'' ''p1''
   \<and> notifications (snd (handleLike (click_of ''ann'') ann_post
        (mount (embed_home (Some ''ann'') ann_store ann_post), ann_store))) = []
   \<and> reachable (snd (handleLike (click_of ''bob'') ann_post
        (mount (embed_home (Some ''bob'') ann_store ann_post), ann_store)))
   \<and> notifications (snd (handleLike (click_of ''bob'') ann_post
        (mount (embed_home (Some ''bob'') ann_store ann_post), ann_store)))
      = [like_notification ''bob'' ann_post]
   \<and> list_all (\<lambda>n. notif_user_id n \<noteq> actor_id n)
        (notifications (snd (handleLike (click_of ''bob'') ann_post
           (mount (embed_home (Some ''bob'') ann_store ann_post), ann_store))))"
  using no_notification_to_self[of "click_of ''ann''" ann_post
      "mount (embed_home (Some ''ann'') ann_store ann_post)" ann_store
      "snd (handleLike (click_of ''bob'') ann_post
        (mount (embed_home (Some ''bob'') ann_store ann_post), ann_store))"]
    reach_like[OF ann_store_reachable, of "click_of ''bob''" ann_post
      "mount (embed_home (Some ''bob'') ann_store ann_post)"]
  by (simp add: scenario_defs handleLike_def request_def insert_like_def insert_notification_def)

section \<open>Follows\<close>

text \<open>
  C8. For every user \<open>a\<close> and store, the insert of the follow row \<open>(a, a)\<close> by \<open>a\<close>
  fails, with the violation of \<open>CHECK (follower_id != following_id)\<close> (the
  specification's \<open>InvalidSelfReference\<close>); under any session it fails. In every
  reachable store no follow row has its follower as followee.
\<close>

theorem self_follow_refused:
  "insert_follow (Some a) \<lparr>follower_id = a, following_id = a\<rparr> s = Inl CheckViolation
   \<and> isl (insert_follow uid \<lparr>follower_id = a, following_id = a\<rparr> s)
   \<and> (reachable t \<longrightarrow> list_all (\<lambda>r. follower_id r \<noteq> following_id r) (follows t))"
  using reachable_invariants[of t]
  by (simp add: insert_follow_def no_self_follow_def)

theorem self_follow_refused_witness:
  "insert_follow (Some ''bob'') \<lparr>follower_id = ''bob'', following_id = ''bob''\<rparr> ann_store
     = Inl CheckViolation
   \<and> insert_follow (Some ''bob'') \<lparr>follower_id = ''bob'', following_id = ''ann''\<rparr> ann_store
     = Inr (ann_store\<lparr>follows := [\<lparr>follower_id = ''bob'', following_id = ''ann''\<rparr>]\<rparr>)
   \<and> reachable (ann_store\<lparr>follows := [\<lparr>follower_id = ''bob'', following_id = ''ann''\<rparr>]\<rparr>)
   \<and> list_all (\<lambda>r. follower_id r \<noteq> following_id r)
        (follows (ann_store\<lparr>follows := [\<lparr>follower_id = ''bob'', following_id = ''ann''\<rparr>]\<rparr>))"
proof -
  have ins: "insert_follow (Some ''bob'') \<lparr>follower_id = ''bob'', following_id = ''ann''\<rparr> ann_store
     = Inr (ann_store\<lparr>follows := [\<lparr>follower_id = ''bob'', following_id = ''ann''\<rparr>]\<rparr>)"
    by (simp add: insert_follow_def ann_store_def)
  have r: "reachable (ann_store\<lparr>follows := [\<lparr>follower_id = ''bob'', following_id = ''ann''\<rparr>]\<rparr>)"
    by (rule reach_follow[OF ann_store_reachable ins])
  from self_follow_refused[of "''bob''" ann_store "Some ''bob''"
      "ann_store\<lparr>follows := [\<lparr>follower_id = ''bob'', following_id = ''ann''\<rparr>]\<rparr>"] ins r
  show ?thesis by simp
qed

section \<open>The save toggle\<close>


lemma delete_save_eq:
  "delete_save (Some u) p u s
   = Inr (s\<lparr>saves := filter (\<lambda>r. r \<noteq> \<lparr>save_user_id = u, save_post_id = p\<rparr>) (saves s)\<rparr>)"
proof -
  have "(\<lambda>r. \<not> (save_post_id r = p \<and> save_user_id r = u \<and> Some u = Some (save_user_id r)))
      = (\<lambda>r. r \<noteq> \<lparr>save_user_id = u, save_post_id = p\<rparr>)"
    by (rule ext) auto
  then show ?thesis unfolding delete_save_def by simp
qed

lemma handleSave_saves:
  "saves (snd (handleSave e post (c, s))) = saves s
   \<or> (\<exists>u. auth_user e = Some u
        \<and> (saves (snd (handleSave e post (c, s)))
             = saves s @ [\<lparr>save_user_id = u, save_post_id = post_id post\<rparr>]
           \<or> saves (snd (handleSave e post (c, s)))
             = filter (\<lambda>r. r \<noteq> \<lparr>save_user_id = u, save_post_id = post_id post\<rparr>) (saves s)))"
proof (cases "auth_user e")
  case None
  then show ?thesis by (simp add: handleSave_def)
next
  case (Some u)
  show ?thesis
  proof (cases "fault1 e")
    case NoFault
    with Some show ?thesis
      by (auto simp: handleSave_def request_def delete_save_eq insert_save_def)
  qed (simp_all add: Some handleSave_def request_def)
qed

text \<open>
  C10. \<open>handleSave\<close>, in either direction and for any actor, post, card and store,
  changes no table but \<open>saves\<close>: \<open>notifications\<close>, \<open>likes\<close>, \<open>posts\<close>,
  \<open>follows\<close> and the bucket are as before, and so are the card's \<open>isLiked\<close> and
  \<open>likesCount\<close>. The table \<open>saves\<close> is as before, or has the actor's row for the
  post appended, or has that row removed.
\<close>

theorem save_toggle_only_saves:
  "posts (snd (handleSave e post (c, s))) = posts s
   \<and> likes (snd (handleSave e post (c, s))) = likes s
   \<and> follows (snd (handleSave e post (c, s))) = follows s
   \<and> notifications (snd (handleSave e post (c, s))) = notifications s
   \<and> objects (snd (handleSave e post (c, s))) = objects s
   \<and> isLiked (fst (handleSave e post (c, s))) = isLiked c
   \<and> likesCount (fst (handleSave e post (c, s))) = likesCount c
   \<and> (saves (snd (handleSave e post (c, s))) = saves s
      \<or> (\<exists>u. auth_user e = Some u
           \<and> (saves (snd (handleSave e post (c, s)))
                = saves s @ [\<lparr>save_user_id = u, save_post_id = post_id post\<rparr>]
              \<or> saves (snd (handleSave e post (c, s)))
                = filter (\<lambda>r. r \<noteq> \<lparr>save_user_id = u, save_post_id = post_id post\<rparr>) (saves s))))"
  using handleSave_frame[of e post c s] handleSave_card[of e post c s] handleSave_saves[of e post c s]
  by blast

section \<open>markAllAsRead\<close>

lemma mark_twice:
  "map (\<lambda>n. if to_mark uid u n then n\<lparr>is_read := True\<rparr> else n)
     (map (\<lambda>n. if to_mark uid u n then n\<lparr>is_read := True\<rparr> else n) ns)
   = map (\<lambda>n. if to_mark uid u n then n\<lparr>is_read := True\<rparr> else n) ns"
  by (induction ns) (auto simp: to_mark_def)

lemma mark_own:
  "map (\<lambda>n. if to_mark (Some u) u n then n\<lparr>is_read := True\<rparr> else n) ns
   = map (\<lambda>n. if notif_user_id n = u then n\<lparr>is_read := True\<rparr> else n) ns"
  by (induction ns) (auto simp: to_mark_def)

lemma none_to_mark:
  "filter (to_mark uid u) (map (\<lambda>n. if to_mark uid u n then n\<lparr>is_read := True\<rparr> else n) ns) = []"
  by (induction ns) (auto simp: to_mark_def)

text \<open>
  C9. For a recipient \<open>u\<close> whose calls reach the store: one \<open>markAllAsRead\<close> sets
  \<open>is_read\<close> on every notification of \<open>u\<close> and changes no other row, and logs no
  error; right after it the statement matches no row, a second \<open>markAllAsRead\<close>
  succeeds, leaves the store as it is and logs nothing.
\<close>

theorem markAllAsRead_idempotent:
  assumes "auth_user e = Some u" "fault1 e = NoFault" "auth_user e' = Some u" "fault1 e' = NoFault"
  shows "notifications (fst (markAllAsRead e s))
           = map (\<lambda>n. if notif_user_id n = u then n\<lparr>is_read := True\<rparr> else n) (notifications s)
       \<and> snd (markAllAsRead e s) = []
       \<and> affected_rows (Some u) u (fst (markAllAsRead e s)) = 0
       \<and> update_is_read (Some u) u (fst (markAllAsRead e s)) = Inr (fst (markAllAsRead e s))
       \<and> markAllAsRead e' (fst (markAllAsRead e s)) = (fst (markAllAsRead e s), [])"
proof -
  have first: "markAllAsRead e s
      = (s\<lparr>notifications := map (\<lambda>n. if to_mark (Some u) u n then n\<lparr>is_read := True\<rparr> else n)
              (notifications s)\<rparr>, [])"
    using assms(1,2) by (simp add: markAllAsRead_def request_def update_is_read_def)
  have again: "update_is_read (Some u) u (fst (markAllAsRead e s)) = Inr (fst (markAllAsRead e s))"
    unfolding first by (simp add: update_is_read_def mark_twice)
  have second: "markAllAsRead e' (fst (markAllAsRead e s)) = (fst (markAllAsRead e s), [])"
    using assms(3,4) again by (simp add: markAllAsRead_def request_def)
  have aff: "affected_rows (Some u) u (fst (markAllAsRead e s)) = 0"
    unfolding first affected_rows_def
    using none_to_mark[of "Some u" u "notifications s"] by simp
  have marked: "notifications (fst (markAllAsRead e s))
           = map (\<lambda>n. if notif_user_id n = u then n\<lparr>is_read := True\<rparr> else n) (notifications s)"
    unfolding first by (simp add: mark_own)
  have quiet: "snd (markAllAsRead e s) = []"
    unfolding first by simp
  from marked quiet aff again second show ?thesis by blast
qed

text \<open>Ann opens her notifications twice.\<close>

theorem markAllAsRead_idempotent_witness:
  "auth_user (click_of ''ann'') = Some ''ann'' \<and> fault1 (click_of ''ann'') = NoFault
   \<and> affected_rows (Some ''ann'') ''ann'' inbox_store = 1
   \<and> map is_read (notifications (fst (markAllAsRead (click_of ''ann'') inbox_store))) = [True, False, True]
   \<and> affected_rows (Some ''ann'') ''ann'' (fst (markAllAsRead (click_of ''ann'') inbox_store)) = 0
   \<and> markAllAsRead (click_of ''ann'') (fst (markAllAsRead (click_of ''ann'') inbox_store))
       = (fst (markAllAsRead (click_of ''ann'') inbox_store), [])"
  using markAllAsRead_idempotent[of "click_of ''ann''" "''ann''" "click_of ''ann''" inbox_store]
  by (simp add: click_of_def inbox_store_def ann_store_def ann_post_def like_notification_def
      affected_rows_def to_mark_def)

section \<open>The order of the feeds\<close>















section \<open>The upload comes before the post\<close>



lemma upload_Inr:
  "upload uid name f s = Inr s' \<Longrightarrow> s' = s\<lparr>objects := objects s @ [(name, f)]\<rparr>"
  by (auto simp: upload_def split: if_splits)





lemma handleSubmit_accepts:
  assumes "auth_user e = Some u" "fault1 e = NoFault" "fault2 e = NoFault"
    and "upload (Some u) (fileName_of u (date_now e) f) f s = Inr s1"
    and "new_post_id e \<notin> set (map post_id (posts s))"
  shows "handleSubmit e (Some f) cap loc s
       = (ToastSuccess ''Post created successfully!'', s1\<lparr>posts := posts s @ [new_row e u f cap loc]\<rparr>)"
proof -
  from upload_Inr[OF assms(4)] have s1: "s1 = s\<lparr>objects := objects s @ [(fileName_of u (date_now e) f, f)]\<rparr>" .
  show ?thesis
    using assms(1,2,3,5) assms(4)[unfolded s1] unfolding s1
    by (simp add: handleSubmit_def Let_def request_def insert_post_def new_row_def)
qed









section \<open>No length check in handleSubmit\<close>

lemma trim_replicate: "\<not> is_space c \<Longrightarrow> trim (replicate n c) = replicate n c"
  by (cases n) (simp_all add: trim_def replicate_append_same)

text \<open>
  C6, amended. \<open>handleSubmit\<close> checks no length: when a file is selected, the user
  is signed in, the bucket accepts the upload and the insert reaches the store with
  an unused identifier, the post is created whatever the caption and the location
  are, of whatever length; the row holds them trimmed, or \<open>null\<close> when nothing is
  left. The bounds 2200 and 100 are \<open>maxLength\<close> attributes of the form's fields
  only.
\<close>

theorem submit_checks_no_length:
  assumes "auth_user e = Some u" "fault1 e = NoFault" "fault2 e = NoFault"
    and "upload (Some u) (fileName_of u (date_now e) f) f s = Inr s1"
    and "new_post_id e \<notin> set (map post_id (posts s))"
  shows "handleSubmit e (Some f) cap loc s
       = (ToastSuccess ''Post created successfully!'', s1\<lparr>posts := posts s @ [new_row e u f cap loc]\<rparr>)
       \<and> caption (new_row e u f cap loc) = or_null (trim cap)
       \<and> location (new_row e u f cap loc) = or_null (trim loc)"
  using handleSubmit_accepts[OF assms] by (simp add: new_row_def)


lemma ann_upload:
  "upload (Some ''ann'') (fileName_of ''ann'' (date_now ann_env) ann_file) ann_file empty_store
   = Inr (empty_store\<lparr>objects := [(''ann/17.png'', ann_file)]\<rparr>)"
  by (simp add: upload_def fileName_of_def ann_env_def ann_file_def split_pop_def digit_def
      foldername1_def empty_store_def)

text \<open>
  C6 as stated fails: a caption of 2201 code units (and a location of 101) is
  accepted and stored.
\<close>

theorem caption_2201_accepted:
  "length (replicate 2201 (CHR ''a'')) = 2201
   \<and> fst (handleSubmit ann_env (Some ann_file) (replicate 2201 (CHR ''a'')) (replicate 101 (CHR ''b''))
        empty_store) = ToastSuccess ''Post created successfully!''
   \<and> map caption (posts (snd (handleSubmit ann_env (Some ann_file) (replicate 2201 (CHR ''a''))
        (replicate 101 (CHR ''b'')) empty_store))) = [Some (replicate 2201 (CHR ''a''))]
   \<and> map location (posts (snd (handleSubmit ann_env (Some ann_file) (replicate 2201 (CHR ''a''))
        (replicate 101 (CHR ''b'')) empty_store))) = [Some (replicate 101 (CHR ''b''))]"
proof -
  have e: "auth_user ann_env = Some ''ann''" "fault1 ann_env = NoFault" "fault2 ann_env = NoFault"
    "new_post_id ann_env \<notin> set (map post_id (posts empty_store))"
    by (simp_all add: ann_env_def empty_store_def)
  have t: "trim (replicate 2201 (CHR ''a'')) = replicate 2201 (CHR ''a'')"
    "trim (replicate 101 (CHR ''b'')) = replicate 101 (CHR ''b'')"
    by (simp_all add: trim_replicate is_space_def)
  have n: "replicate 2201 (CHR ''a'') \<noteq> []" "replicate 101 (CHR ''b'') \<noteq> []"
    by simp_all
  show ?thesis
    unfolding handleSubmit_accepts[OF e(1,2,3) ann_upload e(4)]
    using t n by (simp add: new_row_def or_null_def empty_store_def)
qed

text \<open>Captions of 2200 and of 2201 code units are accepted alike.\<close>

theorem submit_checks_no_length_witness:
  "handleSubmit ann_env (Some ann_file) (replicate 2200 (CHR ''a'')) (replicate 100 (CHR ''b'')) empty_store
     = (ToastSuccess ''Post created successfully!'',
        empty_store\<lparr>objects := [(''ann/17.png'', ann_file)],
          posts := [new_row ann_env ''ann'' ann_file (replicate 2200 (CHR ''a'')) (replicate 100 (CHR ''b''))]\<rparr>)
   \<and> caption (new_row ann_env ''ann'' ann_file (replicate 2200 (CHR ''a'')) (replicate 100 (CHR ''b'')))
     = Some (replicate 2200 (CHR ''a''))
   \<and> handleSubmit ann_env (Some ann_file) (replicate 2201 (CHR ''a'')) (replicate 100 (CHR ''b'')) empty_store
     = (ToastSuccess ''Post created successfully!'',
        empty_store\<lparr>objects := [(''ann/17.png'', ann_file)],
          posts := [new_row ann_env ''ann'' ann_file (replicate 2201 (CHR ''a'')) (replicate 100 (CHR ''b''))]\<rparr>)
   \<and> caption (new_row ann_env ''ann'' ann_file (replicate 2201 (CHR ''a'')) (replicate 100 (CHR ''b'')))
     = Some (replicate 2201 (CHR ''a''))"
proof -
  have e: "auth_user ann_env = Some ''ann''" "fault1 ann_env = NoFault" "fault2 ann_env = NoFault"
    "new_post_id ann_env \<notin> set (map post_id (posts empty_store))"
    by (simp_all add: ann_env_def empty_store_def)
  have t: "trim (replicate 2200 (CHR ''a'')) = replicate 2200 (CHR ''a'')"
    "trim (replicate 2201 (CHR ''a'')) = replicate 2201 (CHR ''a'')"
    by (simp_all add: trim_replicate is_space_def)
  have n: "replicate 2200 (CHR ''a'') \<noteq> []" "replicate 2201 (CHR ''a'') \<noteq> []"
    by simp_all
  from submit_checks_no_length[OF e(1,2,3) ann_upload e(4), of "replicate 2200 (CHR ''a'')" "replicate 100 (CHR ''b'')"]
    submit_checks_no_length[OF e(1,2,3) ann_upload e(4), of "replicate 2201 (CHR ''a'')" "replicate 100 (CHR ''b'')"]
    t n
  show ?thesis by (simp add: or_null_def empty_store_def)
qed

end
